theory Spec2Isabelle
  imports Complex_Main "HOL-Library.Word"
begin

section \<open>Data model of csvoutput.ino\<close>

text \<open>
  The firmware is a single translation unit with global variables, a \<open>setup\<close> function run
  once and a \<open>loop\<close> function run forever. The globals become one record that every function
  takes and returns. Conventions of the embedding:

  \<^item> \<open>unsigned long\<close> is 32 bits wide on the target (ESP32), so the timers are \<open>32 word\<close> and
    their subtraction and addition wrap;
  \<^item> \<open>float\<close> and \<open>double\<close> values are embedded as the real numbers they denote, with exact
    arithmetic; an operation that has no real result (division by zero, square root of a
    negative number) is a \<open>fault\<close> branch of the model;
  \<^item> the \<open>int\<close> counter is an \<open>int\<close>; incrementing it past \<open>INT_MAX\<close> is undefined behaviour
    in the source and a \<open>fault\<close> branch of the model;
  \<^item> the relay pin is the list of levels written to it by \<open>digitalWrite\<close>, oldest first; the
    serial port is the list of chunks handed to \<open>Serial.print\<close> / \<open>Serial.println\<close>, oldest
    first; the CSV file is its byte content;
  \<^item> hardware reads (\<open>micros\<close>, \<open>millis\<close>, the ADC conversion result, \<open>analogRead\<close>, whether a
    file opens) are inputs of each run of \<open>setup\<close> or \<open>loop\<close>.

  Globals that no modelled function reads or writes (\<open>Rshunt\<close>, \<open>n_trafo\<close>, \<open>sampleDuration\<close>,
  \<open>quadratic_sum_counter\<close>, \<open>sampleAverage\<close>, \<open>writeBuf\<close>) are left out, and so are the
  read-back pass \<open>dumpCSVToSerial\<close> and the command parser, which only print.
\<close>

datatype level = LOW | HIGH

datatype fault = SignedOverflow | DivisionByZero | SqrtOfNegative

type_synonym ulong = "32 word"

record state =
  heaterState :: bool
  quadratic_sum_rms :: real
  accumulated_current :: real
  accumulated_counter :: int
  time_ant :: ulong
  difTime :: ulong
  act_time :: ulong
  rms_sample_time_us :: ulong
  display_time :: ulong
  csvLoggingEnabled :: bool
  csvHeaderWritten :: bool
  relay_pin :: "level list"
  serial :: "string list"
  csv_file :: string

definition TEMP_LOW_THRESHOLD :: real where
  "TEMP_LOW_THRESHOLD = 32.0"

definition TEMP_HIGH_THRESHOLD :: real where
  "TEMP_HIGH_THRESHOLD = 37.0"

definition v_bias :: real where
  "v_bias = 1.64"

definition display_interval :: ulong where
  "display_interval = 200"

definition INT_MAX :: int where
  "INT_MAX = 2147483647"

text \<open>The values the globals are initialised with (lines 9-48 of the source).\<close>

definition init_state :: state where
  "init_state =
     \<lparr> heaterState = False,
       quadratic_sum_rms = 0,
       accumulated_current = 0,
       accumulated_counter = 0,
       time_ant = 0,
       difTime = 0,
       act_time = 0,
       rms_sample_time_us = 0,
       display_time = 0,
       csvLoggingEnabled = True,
       csvHeaderWritten = False,
       relay_pin = [],
       serial = [],
       csv_file = [] \<rparr>"

subsection \<open>Output primitives\<close>

definition crlf :: string where
  "crlf = [CHR 0x0D, CHR 0x0A]"

definition digitalWrite_RELAY :: "level \<Rightarrow> state \<Rightarrow> state" where
  "digitalWrite_RELAY v s = s\<lparr>relay_pin := relay_pin s @ [v]\<rparr>"

definition Serial_print :: "string \<Rightarrow> state \<Rightarrow> state" where
  "Serial_print txt s = s\<lparr>serial := serial s @ [txt]\<rparr>"

definition Serial_println :: "string \<Rightarrow> state \<Rightarrow> state" where
  "Serial_println txt s = s\<lparr>serial := serial s @ [txt @ crlf]\<rparr>"

text \<open>The level the relay pin is driven to: the last level written, if any.\<close>

definition relay_level :: "state \<Rightarrow> level option" where
  "relay_level s = (if relay_pin s = [] then None else Some (last (relay_pin s)))"

text \<open>The degree sign of the source's messages, as its two UTF-8 bytes.\<close>

definition degree :: string where
  "degree = [CHR 0xC2, CHR 0xB0]"

definition msg_heater_on :: string where
  "msg_heater_on = ''>>> Heater TURNED ON (Temp < 32'' @ degree @ ''C)''"

definition msg_heater_off :: string where
  "msg_heater_off = ''>>> Heater TURNED OFF (Temp > 37'' @ degree @ ''C)''"

section \<open>The hysteresis actuator\<close>

definition controlHeater :: "real \<Rightarrow> state \<Rightarrow> state" where
  "controlHeater temperature s =
     (if temperature < TEMP_LOW_THRESHOLD then
        (if \<not> heaterState s then
           Serial_println msg_heater_on
             ((digitalWrite_RELAY HIGH s)\<lparr>heaterState := True\<rparr>)
         else s)
      else if TEMP_HIGH_THRESHOLD < temperature then
        (if heaterState s then
           Serial_println msg_heater_off
             ((digitalWrite_RELAY LOW s)\<lparr>heaterState := False\<rparr>)
         else s)
      else s)"

text \<open>
  Feeding one reading per tick: \<open>ticks s ts\<close> is the state before the first tick followed
  by the state after each tick.
\<close>

fun ticks :: "state \<Rightarrow> real list \<Rightarrow> state list" where
  "ticks s [] = [s]"
| "ticks s (t # ts) = s # ticks (controlHeater t s) ts"

text \<open>The number of places where a sequence of flags changes value.\<close>

fun edges :: "bool list \<Rightarrow> nat" where
  "edges (a # b # bs) = (if a = b then 0 else 1) + edges (b # bs)"
| "edges bs = 0"

section \<open>Sensor conversions\<close>

text \<open>
  \<open>read_voltage\<close> (lines 65-73): the argument is the 16-bit conversion result assembled
  from the two bytes read from the converter.
\<close>

definition read_voltage :: "16 word \<Rightarrow> real" where
  "read_voltage result = real_of_int (sint result) * 4.096 / 32768.0"

definition LM35_VREF :: real where
  "LM35_VREF = 3.3"

definition LM35_SCALE :: real where
  "LM35_SCALE = 100.0"

text \<open>\<open>read_temperature\<close> (lines 75-80): the argument is what \<open>analogRead\<close> returned.\<close>

definition read_temperature :: "int \<Rightarrow> real" where
  "read_temperature adc_value =
     (let voltage = (real_of_int adc_value * LM35_VREF) / 4095.0;
          temperature = voltage * LM35_SCALE
      in temperature)"

section \<open>CSV persistence\<close>

text \<open>
  The number formatting of the core library's \<open>Print\<close> class is not part of the sketch; the
  model takes it as a parameter: how an \<open>unsigned long\<close> is printed, and how a floating-point
  value is printed with a given number of decimal digits.
\<close>

record printer =
  print_ulong :: "ulong \<Rightarrow> string"
  print_float :: "real \<Rightarrow> nat \<Rightarrow> string"

definition check_mark :: string where
  "check_mark = [CHR 0xE2, CHR 0x9C, CHR 0x93]"

definition cross_mark :: string where
  "cross_mark = [CHR 0xE2, CHR 0x9C, CHR 0x97]"

definition folder_sign :: string where
  "folder_sign = [CHR 0xF0, CHR 0x9F, CHR 0x93, CHR 0x81]"

definition chart_sign :: string where
  "chart_sign = [CHR 0xF0, CHR 0x9F, CHR 0x93, CHR 0x8A]"

definition csv_header :: string where
  "csv_header = ''Timestamp(ms),Time(s),Current(A),Temperature(C),Heater_State''"

text \<open>
  \<open>writeCSVHeader\<close> (lines 102-114). \<open>opened\<close> says whether \<open>LittleFS.open\<close> in mode \<open>w\<close>
  succeeded; that mode truncates the file.
\<close>

definition writeCSVHeader :: "bool \<Rightarrow> state \<Rightarrow> state" where
  "writeCSVHeader opened s =
     (if \<not> csvLoggingEnabled s then s
      else if opened then
        Serial_println (check_mark @ '' CSV header written'')
          (s\<lparr>csv_file := csv_header @ crlf, csvHeaderWritten := True\<rparr>)
      else Serial_println (cross_mark @ '' Failed to write CSV header'') s)"

text \<open>The bytes the nine \<open>file.print\<close> / \<open>file.println\<close> calls of lines 122-130 write.\<close>

definition csv_record :: "printer \<Rightarrow> ulong \<Rightarrow> ulong \<Rightarrow> real \<Rightarrow> real \<Rightarrow> bool \<Rightarrow> string" where
  "csv_record P timestamp_ms time_s current temperature heater =
     print_ulong P timestamp_ms @ '','' @
     print_ulong P time_s @ '','' @
     print_float P current 5 @ '','' @
     print_float P temperature 2 @ '','' @
     (if heater then ''ON'' else ''OFF'') @ crlf"

text \<open>
  \<open>appendToCSV\<close> (lines 117-135). \<open>opened\<close> says whether \<open>LittleFS.open\<close> in mode \<open>a\<close>
  succeeded.
\<close>

definition appendToCSV ::
  "printer \<Rightarrow> bool \<Rightarrow> ulong \<Rightarrow> ulong \<Rightarrow> real \<Rightarrow> real \<Rightarrow> bool \<Rightarrow> state \<Rightarrow> state" where
  "appendToCSV P opened timestamp_ms time_s current temperature heater s =
     (if \<not> csvLoggingEnabled s then s
      else if opened then
        s\<lparr>csv_file := csv_file s @ csv_record P timestamp_ms time_s current temperature heater\<rparr>
      else Serial_println (cross_mark @ '' Failed to append to CSV'') s)"

text \<open>The comma counter of the read-back pass (lines 169-172 of \<open>dumpCSVToSerial\<close>).\<close>

fun commaCount :: "string \<Rightarrow> nat" where
  "commaCount [] = 0"
| "commaCount (c # cs) = (if c = CHR '','' then Suc (commaCount cs) else commaCount cs)"

text \<open>Cutting a line at every occurrence of a separator.\<close>

fun split_on :: "char \<Rightarrow> string \<Rightarrow> string list" where
  "split_on c [] = [[]]"
| "split_on c (x # xs) =
     (if x = c then [] # split_on c xs
      else (case split_on c xs of [] \<Rightarrow> [[x]] | f # fs \<Rightarrow> (x # f) # fs))"

text \<open>A printed field is safe when it holds no comma and no line terminator.\<close>

definition field_safe :: "string \<Rightarrow> bool" where
  "field_safe f = (CHR '','' \<notin> set f \<and> CHR 0x0D \<notin> set f \<and> CHR 0x0A \<notin> set f)"

text \<open>
  A decimal printer in the manner of the core library, to instantiate the parameter in
  examples: an unsigned value as its decimal digits, a floating-point value rounded to the
  requested number of decimals, with a leading minus sign when negative.
\<close>

definition digit_char :: "nat \<Rightarrow> char" where
  "digit_char d = ''0123456789'' ! (d mod 10)"

fun decimal :: "nat \<Rightarrow> string" where
  "decimal n = (if n < 10 then [digit_char n] else decimal (n div 10) @ [digit_char (n mod 10)])"

declare decimal.simps [simp del]

fun fraction_digits :: "nat \<Rightarrow> nat \<Rightarrow> string" where
  "fraction_digits 0 n = []"
| "fraction_digits (Suc d) n = fraction_digits d (n div 10) @ [digit_char (n mod 10)]"

definition fixed_point :: "real \<Rightarrow> nat \<Rightarrow> string" where
  "fixed_point x d =
     (let n = nat \<lfloor>\<bar>x\<bar> * 10 ^ d + 1 / 2\<rfloor>
      in (if x < 0 then ''-'' else []) @ decimal (n div 10 ^ d) @
         (if d = 0 then [] else ''.'' @ fraction_digits d (n mod 10 ^ d)))"

definition decimal_printer :: printer where
  "decimal_printer = \<lparr> print_ulong = (\<lambda>w. decimal (unat w)), print_float = fixed_point \<rparr>"

section \<open>Faults\<close>

definition and_then :: "fault + 'a \<Rightarrow> ('a \<Rightarrow> fault + 'b) \<Rightarrow> fault + 'b" where
  "and_then m f = (case m of Inl e \<Rightarrow> Inl e | Inr x \<Rightarrow> f x)"

definition fdiv :: "real \<Rightarrow> real \<Rightarrow> fault + real" where
  "fdiv x y = (if y = 0 then Inl DivisionByZero else Inr (x / y))"

definition fsqrt :: "real \<Rightarrow> fault + real" where
  "fsqrt x = (if x < 0 then Inl SqrtOfNegative else Inr (sqrt x))"

definition incr :: "int \<Rightarrow> fault + int" where
  "incr n = (if n = INT_MAX then Inl SignedOverflow else Inr (n + 1))"

section \<open>Initialisation\<close>

record setup_input =
  littlefs_begin :: bool
  header_open :: bool
  setup_millis :: ulong

text \<open>
  The function \<open>setup\<close> of the sketch (lines 250-284), here \<open>setup_ino\<close>. Configuring the serial port, the I2C bus and the pin direction,
  and the delays, leave the modelled state alone.
\<close>

definition setup_ino :: "setup_input \<Rightarrow> state \<Rightarrow> state" where
  "setup_ino i s =
     (let s1 = digitalWrite_RELAY HIGH s;
          s2 = s1\<lparr>heaterState := False\<rparr>;
          s3 = Serial_println ''=== Current + Temperature + Heater Control ==='' s2;
          s4 = Serial_println
                 (''Heater ON: Temp < 32'' @ degree @ ''C | Heater OFF: Temp > 37'' @ degree @ ''C'') s3;
          s5 = (if \<not> littlefs_begin i then
                  (Serial_println (cross_mark @ '' LittleFS mount failed! CSV logging disabled.'') s4)
                    \<lparr>csvLoggingEnabled := False\<rparr>
                else
                  writeCSVHeader (header_open i)
                    (Serial_println
                       (chart_sign @ '' Logging interval: 5 readings per second (200ms)'')
                       (Serial_println
                          (folder_sign @ '' CSV file path: /sensor_data.csv (on ESP32 filesystem)'')
                          (Serial_println (check_mark @ '' LittleFS mounted successfully'') s4))));
          s6 = Serial_println (''Time | Current (A) | Temp ('' @ degree @ ''C) | Heater'') s5;
          s7 = Serial_println ''-----------------------------------------------'' s6;
          s8 = Serial_println (chart_sign @ '' Data capture: 5 readings per second'') s7;
          s9 = Serial_println ([CHR 0x0A] @ ''=== SERIAL COMMANDS ==='') s8;
          s10 = Serial_println (''Type '' @ [CHR 0x27] @ ''dump'' @ [CHR 0x27] @ '' or '' @
                   [CHR 0x27] @ ''d'' @ [CHR 0x27] @ '' to output CSV file to Serial'') s9;
          s11 = Serial_println (''Type '' @ [CHR 0x27] @ ''info'' @ [CHR 0x27] @ '' or '' @
                   [CHR 0x27] @ ''i'' @ [CHR 0x27] @ '' to see file information'') s10;
          s12 = Serial_println (''Type '' @ [CHR 0x27] @ ''help'' @ [CHR 0x27] @ '' or '' @
                   [CHR 0x27] @ ''h'' @ [CHR 0x27] @ '' for all commands'') s11;
          s13 = Serial_println (''======================'' @ [CHR 0x0A]) s12
      in s13\<lparr>display_time := setup_millis i\<rparr>)"

text \<open>The state in which the first run of \<open>loop\<close> starts.\<close>

definition boot :: "setup_input \<Rightarrow> state" where
  "boot i = setup_ino i init_state"

section \<open>The control loop\<close>

text \<open>
  What one run of \<open>loop\<close> reads from the hardware, in the order of the reads: \<open>micros()\<close>
  (line 287), the conversion result (line 292, read only when a sample is taken),
  \<open>millis()\<close> (line 308), and, when a report is due, \<open>analogRead\<close> (line 319), \<open>millis()\<close>
  again (lines 325 and 335) and whether the CSV file opens. \<open>command_output\<close> is what
  \<open>checkSerialCommands\<close> prints in this run; that function changes no other part of the state.
\<close>

record loop_input =
  micros_now :: ulong
  adc_result :: "16 word"
  millis_now :: ulong
  adc_value :: int
  millis_report :: ulong
  millis_csv :: ulong
  csv_open :: bool
  command_output :: "string list"

text \<open>The sampler (lines 287-296).\<close>

definition sampler :: "loop_input \<Rightarrow> state \<Rightarrow> state" where
  "sampler i s =
     (let s1 = s\<lparr>act_time := micros_now i\<rparr>;
          s2 = s1\<lparr>difTime := act_time s1 - time_ant s1\<rparr>
      in if 1000 \<le> difTime s2 then
           (let Vinst = read_voltage (adc_result i) - v_bias;
                Inst = Vinst * 20
            in s2\<lparr>time_ant := act_time s2,
                  quadratic_sum_rms :=
                    quadratic_sum_rms s2 + Inst * Inst * (real (unat (difTime s2)) / 1000000.0),
                  rms_sample_time_us := rms_sample_time_us s2 + difTime s2\<rparr>)
         else s2)"

text \<open>The RMS of the closing window with its noise floor (lines 299-300).\<close>

definition window_rms :: "state \<Rightarrow> fault + real" where
  "window_rms s =
     and_then (fdiv (quadratic_sum_rms s) (real (unat (rms_sample_time_us s)) / 1000000.0))
       (\<lambda>q. and_then (fsqrt q)
          (\<lambda>Irms. Inr (if Irms < 0.1 then 0.0 else Irms)))"

text \<open>The RMS reducer (lines 298-305).\<close>

definition reducer :: "state \<Rightarrow> fault + state" where
  "reducer s =
     (if 20000 \<le> rms_sample_time_us s then
        and_then (window_rms s)
          (\<lambda>Irms. and_then (incr (accumulated_counter s))
             (\<lambda>n. Inr (s\<lparr>accumulated_current := accumulated_current s + Irms,
                          accumulated_counter := n,
                          quadratic_sum_rms := 0.0,
                          rms_sample_time_us := 0\<rparr>)))
      else Inr s)"

text \<open>Draining the averaging accumulator (lines 312-317): the average and the new state.\<close>

definition drain :: "state \<Rightarrow> fault + real \<times> state" where
  "drain s =
     (if 0 < accumulated_counter s then
        and_then (fdiv (accumulated_current s) (real_of_int (accumulated_counter s)))
          (\<lambda>Iavg. Inr (Iavg, s\<lparr>accumulated_current := 0.0, accumulated_counter := 0\<rparr>))
      else Inr (0.0, s))"

text \<open>The rest of a report, given the average (lines 319-335).\<close>

definition report :: "printer \<Rightarrow> loop_input \<Rightarrow> real \<Rightarrow> state \<Rightarrow> state" where
  "report P i Iavg s =
     (let temperature = read_temperature (adc_value i);
          s1 = controlHeater temperature s;
          currentTime_s = millis_report i div 1000;
          s2 = Serial_print (print_ulong P currentTime_s) s1;
          s3 = Serial_print ''s | '' s2;
          s4 = Serial_print (print_float P Iavg 5) s3;
          s5 = Serial_print '' A | '' s4;
          s6 = Serial_print (print_float P temperature 2) s5;
          s7 = Serial_print ('' '' @ degree @ ''C | '') s6;
          s8 = Serial_println (if heaterState s7 then ''ON'' else ''OFF'') s7
      in appendToCSV P (csv_open i) (millis_csv i) currentTime_s Iavg temperature
           (heaterState s8) s8)"

text \<open>Whether the reporter fires (line 309).\<close>

definition report_due :: "loop_input \<Rightarrow> state \<Rightarrow> bool" where
  "report_due i s = (display_interval \<le> millis_now i - display_time s)"

text \<open>The reporter (lines 308-336).\<close>

definition reporter :: "printer \<Rightarrow> loop_input \<Rightarrow> state \<Rightarrow> fault + state" where
  "reporter P i s =
     (if report_due i s then
        and_then (drain (s\<lparr>display_time := millis_now i\<rparr>))
          (\<lambda>(Iavg, s1). Inr (report P i Iavg s1))
      else Inr s)"

text \<open>One run of \<open>loop\<close> (lines 286-340).\<close>

definition loop :: "printer \<Rightarrow> loop_input \<Rightarrow> state \<Rightarrow> fault + state" where
  "loop P i s =
     and_then (reducer (sampler i s))
       (\<lambda>s1. and_then (reporter P i s1)
          (\<lambda>s2. Inr (s2\<lparr>serial := serial s2 @ command_output i\<rparr>)))"

text \<open>Consecutive runs of \<open>loop\<close>, one per input; a fault ends the execution.\<close>

fun run :: "printer \<Rightarrow> state \<Rightarrow> loop_input list \<Rightarrow> fault + state" where
  "run P s [] = Inr s"
| "run P s (i # rest) = (case loop P i s of Inl e \<Rightarrow> Inl e | Inr s' \<Rightarrow> run P s' rest)"

text \<open>
  Draining \<open>n\<close> times in a row with nothing accumulated in between: the averages reported,
  oldest first, and the final state.
\<close>

fun drain_times :: "nat \<Rightarrow> state \<Rightarrow> fault + real list \<times> state" where
  "drain_times 0 s = Inr ([], s)"
| "drain_times (Suc n) s =
     (case drain s of
        Inl e \<Rightarrow> Inl e
      | Inr (a, s') \<Rightarrow>
          (case drain_times n s' of Inl e \<Rightarrow> Inl e | Inr (as, s'') \<Rightarrow> Inr (a # as, s'')))"

text \<open>The invariant of the accumulators between two runs of \<open>loop\<close>.\<close>

definition accumulators_ok :: "state \<Rightarrow> bool" where
  "accumulators_ok s =
     (0 \<le> quadratic_sum_rms s \<and> 0 \<le> accumulated_current s \<and> 0 \<le> accumulated_counter s \<and>
      (accumulated_counter s = 0 \<longrightarrow> accumulated_current s = 0) \<and>
      rms_sample_time_us s < 20000)"

section \<open>Example states and inputs\<close>

text \<open>Two windows ready to close, a boot input, and the input of one run of \<open>loop\<close>.\<close>

definition s_quiet :: state where
  "s_quiet = init_state\<lparr>quadratic_sum_rms := 0.00005, rms_sample_time_us := 20000\<rparr>"

definition s_loaded :: state where
  "s_loaded = init_state\<lparr>quadratic_sum_rms := 0.08, rms_sample_time_us := 20000\<rparr>"

definition si0 :: setup_input where
  "si0 = \<lparr> littlefs_begin = True, header_open = True, setup_millis = 100 \<rparr>"

definition i0 :: loop_input where
  "i0 = \<lparr> micros_now = 25000, adc_result = 0, millis_now = 300, adc_value = 400,
          millis_report = 300, millis_csv = 301, csv_open = True, command_output = [] \<rparr>"

section \<open>Properties of the hysteresis actuator\<close>

lemma length_ticks: "length (ticks s ts) = Suc (length ts)"
  by (induction ts arbitrary: s) simp_all

lemma ticks_nonempty: "ticks s ts \<noteq> []"
  by (cases ts) simp_all

lemma hd_ticks: "hd (ticks s ts) = s"
  by (cases ts) simp_all

lemma controlHeater_step:
  "(\<not> heaterState s \<and> heaterState (controlHeater t s) \<longrightarrow> t < 32) \<and>
   (heaterState s \<and> \<not> heaterState (controlHeater t s) \<longrightarrow> 37 < t) \<and>
   (32 \<le> t \<and> t \<le> 37 \<longrightarrow> heaterState (controlHeater t s) = heaterState s)"
  by (simp add: controlHeater_def TEMP_LOW_THRESHOLD_def TEMP_HIGH_THRESHOLD_def
      Serial_println_def digitalWrite_RELAY_def)

text \<open>
  Claim C1. For every sequence of readings fed one per tick and every tick \<open>k\<close> of it: the
  state goes from IDLE to HEATING only on a reading strictly below 32, from HEATING to IDLE
  only on a reading strictly above 37, and is held on a reading in the closed band [32, 37].
\<close>

theorem hysteresis_transitions:
  assumes "k < length ts"
  shows "(\<not> heaterState (ticks s ts ! k) \<and> heaterState (ticks s ts ! Suc k) \<longrightarrow> ts ! k < 32) \<and>
         (heaterState (ticks s ts ! k) \<and> \<not> heaterState (ticks s ts ! Suc k) \<longrightarrow> 37 < ts ! k) \<and>
         (32 \<le> ts ! k \<and> ts ! k \<le> 37 \<longrightarrow>
            heaterState (ticks s ts ! Suc k) = heaterState (ticks s ts ! k))"
  using assms
proof (induction ts arbitrary: s k)
  case Nil
  then show ?case by simp
next
  case (Cons t ts)
  show ?case
  proof (cases k)
    case 0
    have "ticks s (t # ts) ! Suc 0 = controlHeater t s"
      by (simp add: nth_Cons' hd_conv_nth [symmetric] ticks_nonempty hd_ticks)
    with 0 controlHeater_step [of s t] show ?thesis by simp
  next
    case (Suc j)
    with Cons.prems have "j < length ts" by simp
    from Cons.IH [OF this, of "controlHeater t s"] Suc show ?thesis by simp
  qed
qed

lemmas heater_defs = controlHeater_def TEMP_LOW_THRESHOLD_def TEMP_HIGH_THRESHOLD_def
  Serial_println_def digitalWrite_RELAY_def

text \<open>
  The three ticks of the readings 30, 35, 38 from the initial state: switched on at 30, held
  at 35, switched off at 38.
\<close>

theorem hysteresis_transitions_witness:
  "(2::nat) < length [30, 35, 38 :: real] \<and>
   \<not> heaterState (ticks init_state [30, 35, 38] ! 0) \<and>
   heaterState (ticks init_state [30, 35, 38] ! Suc 0) \<and>
   [30, 35, 38 :: real] ! 0 < 32 \<and>
   heaterState (ticks init_state [30, 35, 38] ! Suc 1) =
     heaterState (ticks init_state [30, 35, 38] ! 1) \<and>
   heaterState (ticks init_state [30, 35, 38] ! 2) \<and>
   \<not> heaterState (ticks init_state [30, 35, 38] ! Suc 2) \<and>
   37 < [30, 35, 38 :: real] ! 2"
  using hysteresis_transitions [of 0 "[30, 35, 38]" init_state]
    hysteresis_transitions [of 1 "[30, 35, 38]" init_state]
    hysteresis_transitions [of 2 "[30, 35, 38]" init_state]
  by (simp add: heater_defs init_state_def)

text \<open>
  Claim C2 says that the readings 30, 33, 35, 38, 34, 31 leave the state IDLE at all six
  epochs. The first reading is below 32, so the heater is switched on at the first epoch.
\<close>

theorem scenario_2_states_counterexample:
  "map heaterState (tl (ticks init_state [30, 33, 35, 38, 34, 31])) \<noteq>
     [False, False, False, False, False, False]"
  by (simp add: heater_defs init_state_def)

text \<open>
  Claim C2, amended. Starting IDLE, the readings 30, 33, 35, 38, 34, 31 give the states
  HEATING, HEATING, HEATING, IDLE, IDLE, HEATING.
\<close>

theorem scenario_2_states:
  assumes "\<not> heaterState s"
  shows "map heaterState (tl (ticks s [30, 33, 35, 38, 34, 31])) =
           [True, True, True, False, False, True]"
  using assms by (simp add: heater_defs)

theorem scenario_2_states_witness:
  "\<not> heaterState init_state \<and>
   map heaterState (tl (ticks init_state [30, 33, 35, 38, 34, 31])) =
     [True, True, True, False, False, True]"
  using scenario_2_states [of init_state] by (simp add: init_state_def)

lemma setup_ino_relay_pin: "relay_pin (setup_ino i s) = relay_pin s @ [HIGH]"
  by (simp add: setup_ino_def Let_def Serial_println_def digitalWrite_RELAY_def writeCSVHeader_def)

lemma setup_ino_heaterState: "heaterState (setup_ino i s) = False"
  by (simp add: setup_ino_def Let_def Serial_println_def digitalWrite_RELAY_def writeCSVHeader_def)

text \<open>
  Claim C3 says that initialisation leaves the state IDLE and the relay output at the level
  the HEATING-to-IDLE transition writes. The state is IDLE, but the level written by
  \<open>setup\<close> is \<open>HIGH\<close>, the level of the IDLE-to-HEATING transition; the HEATING-to-IDLE
  transition writes \<open>LOW\<close>.
\<close>

theorem setup_relay_level:
  "heaterState (boot i) = False \<and>
   relay_level (boot i) = Some HIGH \<and>
   relay_level (controlHeater 38 (s\<lparr>heaterState := True\<rparr>)) = Some LOW \<and>
   relay_level (controlHeater 30 (s\<lparr>heaterState := False\<rparr>)) = Some HIGH"
  by (simp add: boot_def setup_ino_relay_pin setup_ino_heaterState relay_level_def heater_defs)

lemma controlHeater_effects:
  "(heaterState (controlHeater t s) = heaterState s \<longrightarrow> controlHeater t s = s) \<and>
   (heaterState (controlHeater t s) \<noteq> heaterState s \<longrightarrow>
      relay_pin (controlHeater t s) =
        relay_pin s @ [if heaterState (controlHeater t s) then HIGH else LOW] \<and>
      serial (controlHeater t s) =
        serial s @ [(if heaterState (controlHeater t s) then msg_heater_on else msg_heater_off) @ crlf])"
  by (simp add: heater_defs)

lemma edges_ticks_Cons:
  "edges (a # map heaterState (ticks c ts)) =
     (if a = heaterState c then 0 else 1) + edges (map heaterState (ticks c ts))"
  by (cases ts) simp_all

lemma edges_ticks_step:
  "edges (map heaterState (ticks s (t # ts))) =
     (if heaterState s = heaterState (controlHeater t s) then 0 else 1) +
     edges (map heaterState (ticks (controlHeater t s) ts))"
  using edges_ticks_Cons [of "heaterState s" "controlHeater t s" ts] by simp

lemma relay_writes_count:
  "length (relay_pin (last (ticks s ts))) =
     length (relay_pin s) + edges (map heaterState (ticks s ts))"
proof (induction ts arbitrary: s)
  case Nil
  show ?case by simp
next
  case (Cons t ts)
  have step: "length (relay_pin (controlHeater t s)) =
          length (relay_pin s) + (if heaterState s = heaterState (controlHeater t s) then 0 else 1)"
    by (simp add: heater_defs)
  have l: "last (ticks s (t # ts)) = last (ticks (controlHeater t s) ts)"
    by (simp add: ticks_nonempty)
  show ?case
    by (simp only: l Cons.IH [of "controlHeater t s"] step edges_ticks_step [of s t ts] add.assoc)
qed

lemma serial_messages_count:
  "length (serial (last (ticks s ts))) =
     length (serial s) + edges (map heaterState (ticks s ts))"
proof (induction ts arbitrary: s)
  case Nil
  show ?case by simp
next
  case (Cons t ts)
  have step: "length (serial (controlHeater t s)) =
          length (serial s) + (if heaterState s = heaterState (controlHeater t s) then 0 else 1)"
    by (simp add: heater_defs)
  have l: "last (ticks s (t # ts)) = last (ticks (controlHeater t s) ts)"
    by (simp add: ticks_nonempty)
  show ?case
    by (simp only: l Cons.IH [of "controlHeater t s"] step edges_ticks_step [of s t ts] add.assoc)
qed

text \<open>
  Claim C7. A tick that leaves the hysteresis state as it was writes nothing to the relay
  and prints nothing; a tick that changes it makes exactly one relay write and prints exactly
  one message. Over any sequence of ticks the relay writes, and the messages, are as many as
  the changes of state.
\<close>

theorem relay_written_on_edges_only:
  "(heaterState (controlHeater t s) = heaterState s \<longrightarrow>
      relay_pin (controlHeater t s) = relay_pin s \<and> serial (controlHeater t s) = serial s) \<and>
   (heaterState (controlHeater t s) \<noteq> heaterState s \<longrightarrow>
      relay_pin (controlHeater t s) =
        relay_pin s @ [if heaterState (controlHeater t s) then HIGH else LOW] \<and>
      serial (controlHeater t s) =
        serial s @ [(if heaterState (controlHeater t s) then msg_heater_on else msg_heater_off) @ crlf]) \<and>
   length (relay_pin (last (ticks s ts))) =
     length (relay_pin s) + edges (map heaterState (ticks s ts)) \<and>
   length (serial (last (ticks s ts))) =
     length (serial s) + edges (map heaterState (ticks s ts))"
  using controlHeater_effects [of t s] relay_writes_count [of s ts] serial_messages_count [of s ts]
  by auto

text \<open>A held tick from the initial state, and four ticks with two changes of state.\<close>

theorem relay_written_on_edges_only_witness:
  "heaterState (controlHeater 35 init_state) = heaterState init_state \<and>
   relay_pin (controlHeater 35 init_state) = [] \<and>
   serial (controlHeater 35 init_state) = [] \<and>
   edges (map heaterState (ticks init_state [25, 25, 25, 40])) = 2 \<and>
   length (relay_pin (last (ticks init_state [25, 25, 25, 40]))) = 2 \<and>
   length (serial (last (ticks init_state [25, 25, 25, 40]))) = 2"
  using relay_written_on_edges_only [of 35 init_state "[25, 25, 25, 40]"]
  by (simp add: heater_defs init_state_def)


section \<open>Properties of the current pipeline\<close>

lemma Serial_print_fields [simp]:
  "quadratic_sum_rms (Serial_print x s) = quadratic_sum_rms s"
  "accumulated_current (Serial_print x s) = accumulated_current s"
  "accumulated_counter (Serial_print x s) = accumulated_counter s"
  "rms_sample_time_us (Serial_print x s) = rms_sample_time_us s"
  "heaterState (Serial_print x s) = heaterState s"
  "csvLoggingEnabled (Serial_print x s) = csvLoggingEnabled s"
  "csv_file (Serial_print x s) = csv_file s"
  "relay_pin (Serial_print x s) = relay_pin s"
  by (simp_all add: Serial_print_def)

lemma Serial_println_fields [simp]:
  "quadratic_sum_rms (Serial_println x s) = quadratic_sum_rms s"
  "accumulated_current (Serial_println x s) = accumulated_current s"
  "accumulated_counter (Serial_println x s) = accumulated_counter s"
  "rms_sample_time_us (Serial_println x s) = rms_sample_time_us s"
  "time_ant (Serial_println x s) = time_ant s"
  "heaterState (Serial_println x s) = heaterState s"
  "csvLoggingEnabled (Serial_println x s) = csvLoggingEnabled s"
  "csv_file (Serial_println x s) = csv_file s"
  "relay_pin (Serial_println x s) = relay_pin s"
  by (simp_all add: Serial_println_def)

lemma controlHeater_fields [simp]:
  "quadratic_sum_rms (controlHeater t s) = quadratic_sum_rms s"
  "accumulated_current (controlHeater t s) = accumulated_current s"
  "accumulated_counter (controlHeater t s) = accumulated_counter s"
  "rms_sample_time_us (controlHeater t s) = rms_sample_time_us s"
  "csvLoggingEnabled (controlHeater t s) = csvLoggingEnabled s"
  "csv_file (controlHeater t s) = csv_file s"
  by (simp_all add: controlHeater_def digitalWrite_RELAY_def)

lemma appendToCSV_fields [simp]:
  "quadratic_sum_rms (appendToCSV P b ts secs c t h s) = quadratic_sum_rms s"
  "accumulated_current (appendToCSV P b ts secs c t h s) = accumulated_current s"
  "accumulated_counter (appendToCSV P b ts secs c t h s) = accumulated_counter s"
  "rms_sample_time_us (appendToCSV P b ts secs c t h s) = rms_sample_time_us s"
  by (simp_all add: appendToCSV_def)

lemma report_fields [simp]:
  "quadratic_sum_rms (report P i a s) = quadratic_sum_rms s"
  "accumulated_current (report P i a s) = accumulated_current s"
  "accumulated_counter (report P i a s) = accumulated_counter s"
  "rms_sample_time_us (report P i a s) = rms_sample_time_us s"
  by (simp_all add: report_def Let_def)

lemma writeCSVHeader_fields [simp]:
  "quadratic_sum_rms (writeCSVHeader b s) = quadratic_sum_rms s"
  "accumulated_current (writeCSVHeader b s) = accumulated_current s"
  "accumulated_counter (writeCSVHeader b s) = accumulated_counter s"
  "rms_sample_time_us (writeCSVHeader b s) = rms_sample_time_us s"
  "time_ant (writeCSVHeader b s) = time_ant s"
  by (simp_all add: writeCSVHeader_def)

lemma boot_fields:
  "quadratic_sum_rms (boot i) = 0"
  "accumulated_current (boot i) = 0"
  "accumulated_counter (boot i) = 0"
  "rms_sample_time_us (boot i) = 0"
  "time_ant (boot i) = 0"
  "display_time (boot i) = setup_millis i"
  by (simp_all add: boot_def setup_ino_def Let_def init_state_def digitalWrite_RELAY_def)

lemma boot_ok: "accumulators_ok (boot i)"
  by (simp add: accumulators_ok_def boot_fields)


lemma sampler_fields [simp]:
  "accumulated_current (sampler i s) = accumulated_current s"
  "accumulated_counter (sampler i s) = accumulated_counter s"
  "display_time (sampler i s) = display_time s"
  by (simp_all add: sampler_def Let_def)

lemma sampler_sum:
  "quadratic_sum_rms (sampler i s) =
     (if 1000 \<le> micros_now i - time_ant s
      then quadratic_sum_rms s +
           ((read_voltage (adc_result i) - v_bias) * 20) * ((read_voltage (adc_result i) - v_bias) * 20) *
           (real (unat (micros_now i - time_ant s)) / 1000000)
      else quadratic_sum_rms s)"
  by (simp add: sampler_def Let_def) (simp add: algebra_simps)

lemma sampler_time:
  "rms_sample_time_us (sampler i s) =
     (if 1000 \<le> micros_now i - time_ant s
      then rms_sample_time_us s + (micros_now i - time_ant s)
      else rms_sample_time_us s)"
  "time_ant (sampler i s) =
     (if 1000 \<le> micros_now i - time_ant s then micros_now i else time_ant s)"
  by (simp_all add: sampler_def Let_def)

lemma sampler_sum_nonneg:
  assumes "0 \<le> quadratic_sum_rms s"
  shows "0 \<le> quadratic_sum_rms (sampler i s)"
proof (cases "1000 \<le> micros_now i - time_ant s")
  case True
  have "0 \<le> x * x * (real n / 1000000)" for x :: real and n :: nat
    by (intro mult_nonneg_nonneg zero_le_square divide_nonneg_nonneg) simp_all
  with assms have "0 \<le> quadratic_sum_rms s + x * x * (real n / 1000000)" for x :: real and n :: nat
    by (intro add_nonneg_nonneg)
  with True show ?thesis by (simp only: sampler_sum if_True)
next
  case False
  with assms show ?thesis by (simp only: sampler_sum if_False)
qed

lemma window_divisor_pos:
  assumes "20000 \<le> rms_sample_time_us s"
  shows "0 < real (unat (rms_sample_time_us s)) / 1000000"
proof -
  from assms have "unat (20000 :: ulong) \<le> unat (rms_sample_time_us s)"
    by (simp only: word_le_nat_alt)
  then have "0 < unat (rms_sample_time_us s)" by simp
  then have "0 < real (unat (rms_sample_time_us s))"
    by (simp only: of_nat_0_less_iff)
  then show ?thesis
    by (rule divide_pos_pos) simp
qed

lemma window_rms_value:
  assumes "20000 \<le> rms_sample_time_us s" and "0 \<le> quadratic_sum_rms s"
  shows "window_rms s =
           Inr (if sqrt (quadratic_sum_rms s / (real (unat (rms_sample_time_us s)) / 1000000)) < 0.1
                then 0
                else sqrt (quadratic_sum_rms s / (real (unat (rms_sample_time_us s)) / 1000000)))"
proof -
  let ?t = "real (unat (rms_sample_time_us s)) / 1000000"
  from window_divisor_pos [OF assms(1)] have pos: "0 < ?t" .
  then have nz: "?t \<noteq> 0" by simp
  from assms(2) pos have "0 \<le> quadratic_sum_rms s / ?t"
    by (rule divide_nonneg_pos)
  then have "\<not> quadratic_sum_rms s / ?t < 0" by simp
  with nz show ?thesis
    by (simp add: window_rms_def fdiv_def fsqrt_def and_then_def)
qed

lemma window_rms_nonneg:
  assumes "20000 \<le> rms_sample_time_us s" and "0 \<le> quadratic_sum_rms s"
  shows "\<exists>r. window_rms s = Inr r \<and> 0 \<le> r"
proof -
  define x where "x = quadratic_sum_rms s / (real (unat (rms_sample_time_us s)) / 1000000)"
  from assms(2) window_divisor_pos [OF assms(1)] have "0 \<le> x"
    unfolding x_def by (rule divide_nonneg_pos)
  then have "0 \<le> sqrt x" by (rule real_sqrt_ge_zero)
  then have "0 \<le> (if sqrt x < 0.1 then 0 else sqrt x)" by simp
  moreover have "window_rms s = Inr (if sqrt x < 0.1 then 0 else sqrt x)"
    unfolding x_def by (rule window_rms_value [OF assms])
  ultimately show ?thesis by blast
qed

lemma reducer_cases:
  assumes "0 \<le> quadratic_sum_rms m"
  shows "reducer m = Inl SignedOverflow \<or>
         (\<exists>m'. reducer m = Inr m' \<and>
            (if 20000 \<le> rms_sample_time_us m
             then \<exists>r. window_rms m = Inr r \<and> 0 \<le> r \<and>
                    m' = m\<lparr>accumulated_current := accumulated_current m + r,
                           accumulated_counter := accumulated_counter m + 1,
                           quadratic_sum_rms := 0, rms_sample_time_us := 0\<rparr>
             else m' = m))"
proof (cases "20000 \<le> rms_sample_time_us m")
  case True
  from window_rms_nonneg [OF True assms] obtain r where r: "window_rms m = Inr r" "0 \<le> r"
    by blast
  with True show ?thesis
    by (simp add: reducer_def and_then_def incr_def)
next
  case False
  then show ?thesis by (simp add: reducer_def)
qed

lemma reducer_ok:
  assumes "0 \<le> quadratic_sum_rms m" "0 \<le> accumulated_current m" "0 \<le> accumulated_counter m"
    and "accumulated_counter m = 0 \<longrightarrow> accumulated_current m = 0"
    and "reducer m = Inr m'"
  shows "accumulators_ok m'"
proof (cases "20000 \<le> rms_sample_time_us m")
  case True
  with reducer_cases [OF assms(1)] assms(5) obtain r where
    "0 \<le> r" "m' = m\<lparr>accumulated_current := accumulated_current m + r,
                           accumulated_counter := accumulated_counter m + 1,
                           quadratic_sum_rms := 0, rms_sample_time_us := 0\<rparr>"
    by auto
  with assms(2,3) show ?thesis by (simp add: accumulators_ok_def)
next
  case False
  with assms(5) have "m' = m" by (simp add: reducer_def)
  with False assms(1-4) show ?thesis by (simp add: accumulators_ok_def)
qed

lemma drain_ok:
  assumes "accumulators_ok m"
  shows "\<exists>a d. drain m = Inr (a, d) \<and> 0 \<le> a \<and> accumulated_current d = 0 \<and>
           accumulated_counter d = 0 \<and> accumulators_ok d"
proof (cases "0 < accumulated_counter m")
  case True
  then have "real_of_int (accumulated_counter m) \<noteq> 0" by simp
  with True assms show ?thesis
    by (simp add: drain_def fdiv_def and_then_def accumulators_ok_def)
next
  case False
  with assms show ?thesis
    by (simp add: drain_def accumulators_ok_def)
qed

lemma accumulators_ok_display_time [simp]:
  "accumulators_ok (s\<lparr>display_time := t\<rparr>) = accumulators_ok s"
  by (simp add: accumulators_ok_def)

lemma accumulators_ok_report [simp]:
  "accumulators_ok (report P i a s) = accumulators_ok s"
  by (simp add: accumulators_ok_def)

lemma accumulators_ok_serial [simp]:
  "accumulators_ok (s\<lparr>serial := x\<rparr>) = accumulators_ok s"
  by (simp add: accumulators_ok_def)

lemma reporter_ok:
  assumes "accumulators_ok m"
  shows "\<exists>s'. reporter P i m = Inr s' \<and> accumulators_ok s' \<and>
           (report_due i m \<longrightarrow> accumulated_current s' = 0 \<and> accumulated_counter s' = 0)"
proof (cases "report_due i m")
  case True
  from assms have "accumulators_ok (m\<lparr>display_time := millis_now i\<rparr>)" by simp
  from drain_ok [OF this] obtain a d where
    "drain (m\<lparr>display_time := millis_now i\<rparr>) = Inr (a, d)" "accumulated_current d = 0"
    "accumulated_counter d = 0" "accumulators_ok d"
    by blast
  with True show ?thesis by (simp add: reporter_def and_then_def)
next
  case False
  with assms show ?thesis by (simp add: reporter_def)
qed

lemma loop_ok:
  assumes "accumulators_ok s" and "loop P i s = Inr s'"
  shows "accumulators_ok s'"
proof -
  from assms(1) have q: "0 \<le> quadratic_sum_rms (sampler i s)"
    by (simp add: accumulators_ok_def sampler_sum_nonneg)
  from assms(2) obtain m where m: "reducer (sampler i s) = Inr m"
    by (cases "reducer (sampler i s)") (simp_all add: loop_def and_then_def)
  from assms(1) have "accumulators_ok m"
    by (intro reducer_ok [OF q _ _ _ m]) (simp_all add: accumulators_ok_def)
  from reporter_ok [OF this, of P i] obtain t where
    t: "reporter P i m = Inr t" "accumulators_ok t" by blast
  with m assms(2) have "s' = t\<lparr>serial := serial t @ command_output i\<rparr>"
    by (simp add: loop_def and_then_def)
  with t(2) show ?thesis by simp
qed

lemma run_ok:
  assumes "accumulators_ok s" and "run P s ins = Inr s'"
  shows "accumulators_ok s'"
  using assms
proof (induction ins arbitrary: s)
  case Nil
  then show ?case by simp
next
  case (Cons i ins)
  from Cons.prems(2) obtain t where t: "loop P i s = Inr t" "run P t ins = Inr s'"
    by (cases "loop P i s") simp_all
  from loop_ok [OF Cons.prems(1) t(1)] have "accumulators_ok t" .
  from Cons.IH [OF this t(2)] show ?case .
qed

lemma reachable_ok:
  assumes "run P (boot si) ins = Inr s"
  shows "accumulators_ok s"
  using run_ok [OF boot_ok assms] .


lemma reducer_no_overflow:
  assumes "accumulated_counter m \<noteq> INT_MAX"
  shows "reducer m \<noteq> Inl SignedOverflow"
  using assms
  by (simp add: reducer_def window_rms_def and_then_def incr_def fdiv_def fsqrt_def
      split: sum.splits)

lemma reducer_display_time:
  assumes "reducer m = Inr m'"
  shows "display_time m' = display_time m"
  using assms
  by (auto simp add: reducer_def and_then_def split: if_splits sum.splits)

text \<open>
  Claim C4. When the reducer fires on a window whose sum of squares is not negative, and the
  counter can still be incremented, it returns, and what it adds to the averaging accumulator
  is the RMS value \<open>sqrt (sum / (elapsed / 1000000))\<close> itself, or exactly 0 when that value is
  strictly below 0.1.
\<close>

theorem noise_floor:
  assumes "20000 \<le> rms_sample_time_us s"
    and "0 \<le> quadratic_sum_rms s"
    and "accumulated_counter s < INT_MAX"
  shows "\<exists>s'. reducer s = Inr s' \<and>
           accumulated_current s' =
             accumulated_current s +
             (if sqrt (quadratic_sum_rms s / (real (unat (rms_sample_time_us s)) / 1000000)) < 0.1
              then 0.0
              else sqrt (quadratic_sum_rms s / (real (unat (rms_sample_time_us s)) / 1000000)))"
  using assms(1,3)
  by (simp add: reducer_def window_rms_value [OF assms(1,2)] and_then_def incr_def)

lemma sqrt_400th: "sqrt (1 / 400) = 1 / 20"
  by (rule real_sqrt_unique) (simp_all add: power2_eq_square)

text \<open>A window with RMS 0.05, which is floored, and one with RMS 2, which is kept.\<close>

theorem noise_floor_witness:
  "(\<exists>s'. reducer s_quiet = Inr s' \<and> accumulated_current s' = 0) \<and>
   (\<exists>s'. reducer s_loaded = Inr s' \<and> accumulated_current s' = 2)"
  using noise_floor [of s_quiet] noise_floor [of s_loaded]
  by (simp add: s_quiet_def s_loaded_def init_state_def INT_MAX_def sqrt_400th)


lemma drain_empty:
  assumes "accumulated_counter s = 0"
  shows "drain s = Inr (0, s)"
  using assms by (simp add: drain_def)

lemma drain_times_empty:
  assumes "accumulated_counter s = 0"
  shows "drain_times n s = Inr (replicate n 0, s)"
  by (induction n) (simp_all add: drain_empty [OF assms])

text \<open>
  Claim C5. With a count of zero the drain performs no division and yields the average 0
  and the unchanged state; so do any number of consecutive drains; and a reporter that fires
  reports the average 0.
\<close>

theorem empty_drain:
  assumes "accumulated_counter s = 0"
  shows "drain s = Inr (0, s) \<and>
         drain_times n s = Inr (replicate n 0, s) \<and>
         (report_due i s \<longrightarrow>
            reporter P i s = Inr (report P i 0 (s\<lparr>display_time := millis_now i\<rparr>)))"
  using assms drain_empty [of "s\<lparr>display_time := millis_now i\<rparr>"]
  by (simp add: drain_empty drain_times_empty reporter_def and_then_def)

text \<open>The state after initialisation, drained three times, and a report due 200 ms later.\<close>

theorem empty_drain_witness:
  "accumulated_counter (boot si0) = 0 \<and>
   report_due i0 (boot si0) \<and>
   drain (boot si0) = Inr (0, boot si0) \<and>
   drain_times 3 (boot si0) = Inr ([0, 0, 0], boot si0) \<and>
   reporter decimal_printer i0 (boot si0) =
     Inr (report decimal_printer i0 0 ((boot si0)\<lparr>display_time := 300\<rparr>))"
  using empty_drain [of "boot si0" 3 i0 decimal_printer]
  by (simp add: boot_fields report_due_def display_interval_def i0_def si0_def numeral_3_eq_3)

text \<open>
  Claim C6. In every execution, a run of \<open>loop\<close> in which the reporter fires ends with the
  sum and the count of the averaging accumulator both zero, whether the count was positive
  or zero when the drain began. (With a count of zero the source resets nothing; the sum is
  zero then because it is only ever increased together with the count.)
\<close>

theorem reporter_resets_accumulator:
  assumes "run P (boot si) ins = Inr s"
    and "report_due i s"
    and "accumulated_counter s < INT_MAX"
  shows "\<exists>s'. loop P i s = Inr s' \<and> accumulated_current s' = 0 \<and> accumulated_counter s' = 0"
proof -
  from reachable_ok [OF assms(1)] have ok: "accumulators_ok s" .
  then have q: "0 \<le> quadratic_sum_rms (sampler i s)"
    by (simp add: accumulators_ok_def sampler_sum_nonneg)
  from assms(3) have "reducer (sampler i s) \<noteq> Inl SignedOverflow"
    by (intro reducer_no_overflow) simp
  with reducer_cases [OF q] obtain m where m: "reducer (sampler i s) = Inr m"
    by blast
  from ok have okm: "accumulators_ok m"
    by (intro reducer_ok [OF q _ _ _ m]) (simp_all add: accumulators_ok_def)
  from reducer_display_time [OF m] assms(2) have due: "report_due i m"
    by (simp add: report_due_def)
  from reporter_ok [OF okm, of P i] due obtain t where
    t: "reporter P i m = Inr t" "accumulated_current t = 0" "accumulated_counter t = 0"
    by blast
  with m show ?thesis by (simp add: loop_def and_then_def)
qed

text \<open>The first run of \<open>loop\<close>, closing a window and reporting in the same run.\<close>

theorem reporter_resets_accumulator_witness:
  "run decimal_printer (boot si0) [] = Inr (boot si0) \<and>
   report_due i0 (boot si0) \<and>
   accumulated_counter (boot si0) < INT_MAX \<and>
   (\<exists>s'. loop decimal_printer i0 (boot si0) = Inr s' \<and>
      accumulated_current s' = 0 \<and> accumulated_counter s' = 0)"
  using reporter_resets_accumulator [of decimal_printer si0 "[]" "boot si0" i0]
  by (simp add: boot_fields report_due_def display_interval_def i0_def si0_def INT_MAX_def)

text \<open>
  Claim C10. In every execution, a run of \<open>loop\<close> never divides by zero and never takes the
  square root of a negative number: when the reducer fires its divisor is strictly positive
  and the sum of squares is not negative, the RMS value it adds is not negative, and the
  average the reporter computes is not negative.
\<close>

theorem rms_pipeline_safe:
  assumes "run P (boot si) ins = Inr s"
  shows "loop P i s \<noteq> Inl DivisionByZero \<and> loop P i s \<noteq> Inl SqrtOfNegative \<and>
         (20000 \<le> rms_sample_time_us (sampler i s) \<longrightarrow>
            0 < real (unat (rms_sample_time_us (sampler i s))) / 1000000 \<and>
            0 \<le> quadratic_sum_rms (sampler i s) \<and>
            (\<exists>r. window_rms (sampler i s) = Inr r \<and> 0 \<le> r)) \<and>
         (\<forall>m. reducer (sampler i s) = Inr m \<longrightarrow>
            (\<exists>a d. drain (m\<lparr>display_time := millis_now i\<rparr>) = Inr (a, d) \<and> 0 \<le> a))"
proof -
  from reachable_ok [OF assms] have ok: "accumulators_ok s" .
  then have q: "0 \<le> quadratic_sum_rms (sampler i s)"
    by (simp add: accumulators_ok_def sampler_sum_nonneg)
  have okm: "accumulators_ok m" if "reducer (sampler i s) = Inr m" for m
    using ok by (intro reducer_ok [OF q _ _ _ that]) (simp_all add: accumulators_ok_def)
  have "loop P i s = Inl SignedOverflow \<or> (\<exists>s'. loop P i s = Inr s')"
  proof -
    from reducer_cases [OF q] consider "reducer (sampler i s) = Inl SignedOverflow"
      | m where "reducer (sampler i s) = Inr m" by blast
    then show ?thesis
    proof cases
      case 1
      then show ?thesis by (simp add: loop_def and_then_def)
    next
      case (2 m)
      from reporter_ok [OF okm [OF 2], of P i] obtain t where "reporter P i m = Inr t"
        by blast
      with 2 show ?thesis by (simp add: loop_def and_then_def)
    qed
  qed
  then have faults: "loop P i s \<noteq> Inl DivisionByZero \<and> loop P i s \<noteq> Inl SqrtOfNegative"
    by auto
  have window: "20000 \<le> rms_sample_time_us (sampler i s) \<longrightarrow>
            0 < real (unat (rms_sample_time_us (sampler i s))) / 1000000 \<and>
            0 \<le> quadratic_sum_rms (sampler i s) \<and>
            (\<exists>r. window_rms (sampler i s) = Inr r \<and> 0 \<le> r)"
    using q window_divisor_pos [of "sampler i s"] window_rms_nonneg [of "sampler i s"]
    by blast
  have avg: "\<exists>a d. drain (m\<lparr>display_time := millis_now i\<rparr>) = Inr (a, d) \<and> 0 \<le> a"
    if "reducer (sampler i s) = Inr m" for m
  proof -
    from okm [OF that] have "accumulators_ok (m\<lparr>display_time := millis_now i\<rparr>)" by simp
    from drain_ok [OF this] show ?thesis by blast
  qed
  from faults window avg show ?thesis by blast
qed

text \<open>The first run of \<open>loop\<close>, with a window of 25 ms that closes.\<close>

theorem rms_pipeline_safe_witness:
  "run decimal_printer (boot si0) [] = Inr (boot si0) \<and>
   20000 \<le> rms_sample_time_us (sampler i0 (boot si0)) \<and>
   loop decimal_printer i0 (boot si0) \<noteq> Inl DivisionByZero \<and>
   loop decimal_printer i0 (boot si0) \<noteq> Inl SqrtOfNegative \<and>
   0 \<le> quadratic_sum_rms (sampler i0 (boot si0)) \<and>
   (\<exists>r. window_rms (sampler i0 (boot si0)) = Inr r \<and> 0 \<le> r)"
  using rms_pipeline_safe [of decimal_printer si0 "[]" "boot si0" i0]
  by (simp add: sampler_time boot_fields i0_def)


text \<open>
  Claim C8. When at least 1000 microseconds have elapsed since the last sample, the sampler
  adds \<open>current\<^sup>2 * (elapsed / 1000000)\<close> to the window's sum, where the current is
  \<open>(measured voltage - bias) * 20\<close> and \<open>elapsed\<close> is the measured difference of the two
  \<open>micros\<close> readings, and adds \<open>elapsed\<close> to the window's time (an \<open>unsigned long\<close> addition,
  which is the sum of the two numbers unless it exceeds 32 bits). When less has elapsed, the
  window is left as it was.
\<close>

theorem sampler_accumulates:
  "(1000 \<le> micros_now i - time_ant s \<longrightarrow>
      quadratic_sum_rms (sampler i s) =
        quadratic_sum_rms s +
        ((read_voltage (adc_result i) - v_bias) * 20)\<^sup>2 *
        (real (unat (micros_now i - time_ant s)) / 1000000) \<and>
      rms_sample_time_us (sampler i s) = rms_sample_time_us s + (micros_now i - time_ant s) \<and>
      (unat (rms_sample_time_us s) + unat (micros_now i - time_ant s) < 2 ^ 32 \<longrightarrow>
         unat (rms_sample_time_us (sampler i s)) =
           unat (rms_sample_time_us s) + unat (micros_now i - time_ant s))) \<and>
   (micros_now i - time_ant s < 1000 \<longrightarrow>
      quadratic_sum_rms (sampler i s) = quadratic_sum_rms s \<and>
      rms_sample_time_us (sampler i s) = rms_sample_time_us s)"
proof -
  have nowrap: "unat (a + b) = unat a + unat b" if "unat a + unat b < 2 ^ 32" for a b :: ulong
    using that unat_add_lem [of a b] by simp
  show ?thesis
    by (simp only: sampler_sum sampler_time power2_eq_square)
       (auto simp add: nowrap not_le [symmetric])
qed

text \<open>A first sample 25 ms after boot with the converter reading 0, and a call after 999 microseconds.\<close>

theorem sampler_accumulates_witness:
  "1000 \<le> micros_now i0 - time_ant (boot si0) \<and>
   quadratic_sum_rms (sampler i0 (boot si0)) = 26.896 \<and>
   rms_sample_time_us (sampler i0 (boot si0)) = 25000 \<and>
   unat (rms_sample_time_us (sampler i0 (boot si0))) = 25000 \<and>
   micros_now (i0\<lparr>micros_now := 999\<rparr>) - time_ant (boot si0) < 1000 \<and>
   quadratic_sum_rms (sampler (i0\<lparr>micros_now := 999\<rparr>) (boot si0)) = 0 \<and>
   rms_sample_time_us (sampler (i0\<lparr>micros_now := 999\<rparr>) (boot si0)) = 0"
  using sampler_accumulates [of i0 "boot si0"]
    sampler_accumulates [of "i0\<lparr>micros_now := 999\<rparr>" "boot si0"]
  by (simp add: boot_fields i0_def read_voltage_def v_bias_def power2_eq_square)


section \<open>Properties of the persisted records\<close>

lemma split_on_none:
  assumes "c \<notin> set a"
  shows "split_on c a = [a]"
  using assms by (induction a) auto

lemma split_on_append:
  assumes "c \<notin> set a"
  shows "split_on c (a @ c # rest) = a # split_on c rest"
  using assms by (induction a) auto

lemma commaCount_append: "commaCount (a @ b) = commaCount a + commaCount b"
  by (induction a) simp_all

lemma commaCount_none:
  assumes "CHR '','' \<notin> set a"
  shows "commaCount a = 0"
  using assms by (induction a) auto

lemma field_safe_on_off: "field_safe (if h then ''ON'' else ''OFF'')"
  by (simp add: field_safe_def)

lemma line_of_safe_fields:
  assumes "field_safe a" "field_safe b" "field_safe c" "field_safe d" "field_safe e"
  shows "split_on CHR '','' (a @ '','' @ b @ '','' @ c @ '','' @ d @ '','' @ e) = [a, b, c, d, e]"
    and "commaCount (a @ '','' @ b @ '','' @ c @ '','' @ d @ '','' @ e) = 4"
    and "CHR 0x0D \<notin> set (a @ '','' @ b @ '','' @ c @ '','' @ d @ '','' @ e)"
    and "CHR 0x0A \<notin> set (a @ '','' @ b @ '','' @ c @ '','' @ d @ '','' @ e)"
  using assms
  by (simp_all add: field_safe_def split_on_append split_on_none commaCount_append commaCount_none)

text \<open>
  Claim C9. \<open>appendToCSV\<close> appends one record to the file when logging is enabled and the
  file opens, and nothing otherwise. With number printers that emit no comma and no line
  terminator, the record is one line ended by CR LF that holds exactly four commas and
  splits at them into five fields, in this order: the millisecond timestamp, the second
  timestamp, the current printed with 5 decimals, the temperature printed with 2 decimals,
  and \<open>ON\<close> or \<open>OFF\<close>.
\<close>

theorem csv_record_format:
  assumes "\<forall>w. field_safe (print_ulong P w)"
    and "\<forall>x d. field_safe (print_float P x d)"
  shows "csv_file (appendToCSV P opened ts secs cur temp h s) =
           (if csvLoggingEnabled s \<and> opened then csv_file s @ csv_record P ts secs cur temp h
            else csv_file s) \<and>
         (\<exists>line. csv_record P ts secs cur temp h = line @ crlf \<and>
            CHR 0x0D \<notin> set line \<and> CHR 0x0A \<notin> set line \<and>
            commaCount line = 4 \<and>
            split_on CHR '','' line =
              [print_ulong P ts, print_ulong P secs, print_float P cur 5, print_float P temp 2,
               if h then ''ON'' else ''OFF''])"
proof -
  let ?line = "print_ulong P ts @ '','' @ print_ulong P secs @ '','' @ print_float P cur 5 @ '','' @
               print_float P temp 2 @ '','' @ (if h then ''ON'' else ''OFF'')"
  have rec: "csv_record P ts secs cur temp h = ?line @ crlf"
    by (simp add: csv_record_def)
  from assms have safe: "field_safe (print_ulong P ts)" "field_safe (print_ulong P secs)"
    "field_safe (print_float P cur 5)" "field_safe (print_float P temp 2)"
    by simp_all
  note facts = line_of_safe_fields [OF safe field_safe_on_off [of h]]
  have appended: "csv_file (appendToCSV P opened ts secs cur temp h s) =
           (if csvLoggingEnabled s \<and> opened then csv_file s @ csv_record P ts secs cur temp h
            else csv_file s)"
    by (simp add: appendToCSV_def)
  from rec facts have "\<exists>line. csv_record P ts secs cur temp h = line @ crlf \<and>
            CHR 0x0D \<notin> set line \<and> CHR 0x0A \<notin> set line \<and>
            commaCount line = 4 \<and>
            split_on CHR '','' line =
              [print_ulong P ts, print_ulong P secs, print_float P cur 5, print_float P temp 2,
               if h then ''ON'' else ''OFF'']"
    by blast
  with appended show ?thesis by blast
qed

lemma digit_char_safe: "digit_char d \<notin> {CHR '','', CHR 0x0D, CHR 0x0A}"
proof -
  define c where "c = digit_char d"
  have "d mod 10 < length ''0123456789''" by simp
  then have "c \<in> set ''0123456789''"
    unfolding c_def digit_char_def by (rule nth_mem)
  then have "c \<notin> {CHR '','', CHR 0x0D, CHR 0x0A}" by auto
  then show ?thesis unfolding c_def .
qed

lemma field_safe_append: "field_safe (a @ b) = (field_safe a \<and> field_safe b)"
  by (auto simp add: field_safe_def)

lemma field_safe_digit: "field_safe [digit_char d]"
  using digit_char_safe [of d] by (auto simp add: field_safe_def)

lemma field_safe_decimal: "field_safe (decimal n)"
proof (induction n rule: decimal.induct)
  case (1 n)
  show ?case
  proof (cases "n < 10")
    case True
    then show ?thesis by (simp add: decimal.simps [of n] field_safe_digit)
  next
    case False
    with 1 show ?thesis
      by (simp add: decimal.simps [of n] field_safe_append field_safe_digit)
  qed
qed


lemma field_safe_fraction_digits: "field_safe (fraction_digits d n)"
proof (induction d arbitrary: n)
  case 0
  show ?case by (simp add: field_safe_def)
next
  case (Suc d)
  then show ?case by (simp add: field_safe_append field_safe_digit)
qed

lemma field_safe_fixed_point: "field_safe (fixed_point x d)"
proof -
  have "field_safe ''-''" "field_safe []" "field_safe ''.''"
    by (simp_all add: field_safe_def)
  then show ?thesis
    by (simp add: fixed_point_def Let_def field_safe_append field_safe_decimal
        field_safe_fraction_digits del: append.simps)
qed

lemma decimal_printer_safe:
  "\<forall>w. field_safe (print_ulong decimal_printer w)"
  "\<forall>x d. field_safe (print_float decimal_printer x d)"
  by (simp_all add: decimal_printer_def field_safe_decimal field_safe_fixed_point)



lemma decimal_small: "n < 10 \<Longrightarrow> decimal n = [digit_char n]"
  by (simp add: decimal.simps [of n])

lemma decimal_big: "10 \<le> n \<Longrightarrow> decimal n = decimal (n div 10) @ [digit_char (n mod 10)]"
  by (simp add: decimal.simps [of n])

lemma fraction_digits_pos:
  "0 < d \<Longrightarrow> fraction_digits d n = fraction_digits (d - 1) (n div 10) @ [digit_char (n mod 10)]"
  by (cases d) simp_all

lemma sample_record:
  "csv_record decimal_printer 1234 1 0.12345 30.5 True = ''1234,1,0.12345,30.50,ON'' @ crlf"
  by (simp add: csv_record_def decimal_printer_def fixed_point_def digit_char_def
      decimal_small decimal_big fraction_digits_pos)

lemma writeCSVHeader_logging [simp]:
  "csvLoggingEnabled (writeCSVHeader b s) = csvLoggingEnabled s"
  by (simp add: writeCSVHeader_def)

lemma boot_logging: "csvLoggingEnabled (boot i) = littlefs_begin i"
  by (simp add: boot_def setup_ino_def Let_def init_state_def digitalWrite_RELAY_def)

text \<open>The record of one report, with the decimal printer, appended to the file left by boot.\<close>

theorem csv_record_format_witness:
  "(\<forall>w. field_safe (print_ulong decimal_printer w)) \<and>
   (\<forall>x d. field_safe (print_float decimal_printer x d)) \<and>
   csvLoggingEnabled (boot si0) \<and>
   csv_file (appendToCSV decimal_printer True 1234 1 0.12345 30.5 True (boot si0)) =
     csv_file (boot si0) @ ''1234,1,0.12345,30.50,ON'' @ crlf \<and>
   split_on CHR '','' ''1234,1,0.12345,30.50,ON'' =
     [''1234'', ''1'', ''0.12345'', ''30.50'', ''ON''] \<and>
   commaCount ''1234,1,0.12345,30.50,ON'' = 4"
proof -
  have on: "csvLoggingEnabled (boot si0)"
    by (simp add: boot_logging si0_def)
  with csv_record_format [OF decimal_printer_safe, of True 1234 1 "0.12345" "30.5" True "boot si0"]
  have "csv_file (appendToCSV decimal_printer True 1234 1 0.12345 30.5 True (boot si0)) =
          csv_file (boot si0) @ csv_record decimal_printer 1234 1 0.12345 30.5 True"
    by simp
  then have "csv_file (appendToCSV decimal_printer True 1234 1 0.12345 30.5 True (boot si0)) =
          csv_file (boot si0) @ ''1234,1,0.12345,30.50,ON'' @ crlf"
    by (simp only: sample_record)
  with on decimal_printer_safe show ?thesis by simp
qed

end
